theory Spec2Isabelle
  imports Main "HOL-Library.Word"
begin

section \<open>Python values, exceptions and the world\<close>

text \<open>
  The module \<^verbatim>\<open>tf_image_segmentation/recipes/mscoco/data_coco.py\<close> is Python 2 code
  (\<^verbatim>\<open>imgToAnns.keys()[img_num]\<close> indexes the list that \<^verbatim>\<open>dict.keys()\<close> returns in
  Python 2). Exceptions are values of \<open>error\<close>; a function that touches the file system
  or standard output takes the \<open>world\<close> and returns either the new world or the
  exception together with the world as it was when the exception was raised.
\<close>

datatype error =
  TypeError | KeyError | IndexError | ValueError | OverflowError | OSError | IOError |
  ShapeMismatch

type_synonym uint8 = "8 word"

text \<open>A two-dimensional \<^verbatim>\<open>numpy\<close> array of \<^verbatim>\<open>dtype=np.uint8\<close>, as the list of its rows.\<close>

type_synonym ndarray = "uint8 list list"

text \<open>
  The world: the image files written so far, in order, the lines printed, and the
  directories that exist (as the operating system resolves a directory path).
\<close>

record world =
  files :: "(string \<times> ndarray) list"
  stdout :: "string list"
  dirs :: "string \<Rightarrow> bool"

text \<open>
  The operands of the \<^verbatim>\<open>+\<close> chains in the two \<^verbatim>\<open>print\<close> calls are strings and the
  list \<^verbatim>\<open>annotation_paths\<close>. The left operand of every \<^verbatim>\<open>+\<close> of those chains is a
  string; Python raises \<^verbatim>\<open>TypeError\<close> when the right operand is a list.
\<close>

datatype pyval = PyStr string | PyList "string list"

fun py_add :: "error + string \<Rightarrow> pyval \<Rightarrow> error + string" where
  "py_add (Inl e) _ = Inl e"
| "py_add (Inr s) (PyStr t) = Inr (s @ t)"
| "py_add (Inr s) (PyList _) = Inl TypeError"

definition py_print :: "string \<Rightarrow> world \<Rightarrow> world" where
  "py_print s w = w\<lparr>stdout := stdout w @ [s]\<rparr>"

text \<open>\<^verbatim>\<open>posixpath.join\<close> for two components, and \<^verbatim>\<open>str.endswith\<close>.\<close>

definition os_path_join :: "string \<Rightarrow> string \<Rightarrow> string" where
  "os_path_join a b =
     (if take 1 b = ''/'' then b
      else if a = [] \<or> last a = CHR ''/'' then a @ b
      else a @ ''/'' @ b)"


text \<open>
  \<^verbatim>\<open>posixpath.basename\<close>, \<^verbatim>\<open>posixpath.dirname\<close> and \<^verbatim>\<open>posixpath.splitext\<close>. The
  directory part runs up to the last slash and loses its trailing slashes unless it
  consists of slashes only. The extension starts at the last dot of the base name,
  provided a character other than a dot comes before that dot; otherwise there is none.
\<close>

definition basename :: "string \<Rightarrow> string" where
  "basename p = rev (takeWhile (\<lambda>c. c \<noteq> CHR ''/'') (rev p))"

definition os_path_dirname :: "string \<Rightarrow> string" where
  "os_path_dirname p =
     (let head = rev (dropWhile (\<lambda>c. c \<noteq> CHR ''/'') (rev p))
      in if head \<noteq> [] \<and> \<not> list_all (\<lambda>c. c = CHR ''/'') head
         then rev (dropWhile (\<lambda>c. c = CHR ''/'') (rev head))
         else head)"

definition os_path_splitext :: "string \<Rightarrow> string \<times> string" where
  "os_path_splitext p =
     (let b = basename p;
          stem = rev (tl (dropWhile (\<lambda>c. c \<noteq> CHR ''.'') (rev b)))
      in if CHR ''.'' \<in> set b \<and> \<not> list_all (\<lambda>c. c = CHR ''.'') stem
         then (take (length p - length b) p @ stem, drop (length stem) b)
         else (p, []))"

section \<open>The annotation data and the COCO object\<close>

text \<open>
  \<^verbatim>\<open>pycocotools\<close> is an external library: the constructor \<^verbatim>\<open>COCO(annFile, image_path)\<close>,
  \<^verbatim>\<open>coco.loadImgs\<close> and \<^verbatim>\<open>coco.annToMask\<close> are parameters of the model, each able to
  raise. The geometry of an annotation (polygon or RLE) is only ever passed to
  \<^verbatim>\<open>annToMask\<close>, so its type \<open>'g\<close> is left open.
\<close>

record img_info =
  height :: int
  width :: int
  file_name :: string

record 'g ann =
  image_id :: int
  category_id :: int
  segmentation :: 'g

record 'g coco =
  dataset :: "string \<rightharpoonup> 'g ann list"
  loadImgs :: "int \<Rightarrow> error + img_info list"
  annToMask :: "'g ann \<Rightarrow> error + ndarray"

section \<open>The numpy operations of the rasterizer\<close>

text \<open>\<^verbatim>\<open>np.zeros((h, w), dtype=np.uint8)\<close>: a negative dimension raises \<^verbatim>\<open>ValueError\<close>.\<close>

definition np_zeros :: "int \<Rightarrow> int \<Rightarrow> error + ndarray" where
  "np_zeros h w =
     (if h < 0 \<or> w < 0 then Inl ValueError
      else Inr (replicate (nat h) (replicate (nat w) 0)))"

text \<open>\<^verbatim>\<open>np.where(mask > 0)\<close>: the (row, column) indices of the positive cells, row-major.\<close>

definition np_where_gt0 :: "ndarray \<Rightarrow> (nat \<times> nat) list" where
  "np_where_gt0 m =
     concat (map (\<lambda>r. map (\<lambda>c. (r, c)) (filter (\<lambda>c. m ! r ! c > 0) [0..<length (m ! r)]))
                 [0..<length m])"

definition in_bounds :: "ndarray \<Rightarrow> nat \<times> nat \<Rightarrow> bool" where
  "in_bounds M p = (fst p < length M \<and> snd p < length (M ! fst p))"

definition set_cell :: "uint8 \<Rightarrow> nat \<times> nat \<Rightarrow> ndarray \<Rightarrow> ndarray" where
  "set_cell v p M = M[fst p := (M ! fst p)[snd p := v]]"

text \<open>
  \<^verbatim>\<open>MASK[ids] = v\<close>. numpy first converts the Python integer \<open>v\<close> to the array's
  \<^verbatim>\<open>uint8\<close> element type, through a C \<^verbatim>\<open>long\<close> (64 bits on the Linux and macOS
  platforms the script's paths are written for): a value outside the range of a C
  \<^verbatim>\<open>long\<close> raises \<^verbatim>\<open>OverflowError\<close>, and a value inside it is cast with wrap-around
  and without a warning by the numpy releases that run under Python 2 (up to 1.16),
  which is \<open>word_of_int\<close>. Then the indices are checked, an index outside the array
  raising \<^verbatim>\<open>IndexError\<close>, and every indexed cell is overwritten.
\<close>

definition fits_c_long :: "int \<Rightarrow> bool" where
  "fits_c_long v = (- (2 ^ 63) \<le> v \<and> v < 2 ^ 63)"

definition setitem :: "ndarray \<Rightarrow> (nat \<times> nat) list \<Rightarrow> int \<Rightarrow> error + ndarray" where
  "setitem M ids v =
     (if \<not> fits_c_long v then Inl OverflowError
      else if list_all (in_bounds M) ids then Inr (fold (set_cell (word_of_int v)) ids M)
      else Inl IndexError)"

section \<open>coco_json_to_segmentation\<close>

text \<open>
  Lines 128 to 131: the loop over the annotations of one image.
  \<^verbatim>\<open>
  for ann in imgToAnns[imgToAnns.keys()[img_num]]:
      mask = coco.annToMask(ann)
      ids = np.where(mask > 0)
      MASK[ids] = ann['category_id']
  \<close>
\<close>

fun paint_anns :: "'g coco \<Rightarrow> 'g ann list \<Rightarrow> ndarray \<Rightarrow> error + ndarray" where
  "paint_anns coco [] MASK = Inr MASK"
| "paint_anns coco (a # anns) MASK =
     (case annToMask coco a of
        Inl e \<Rightarrow> Inl e
      | Inr msk \<Rightarrow>
          (case setitem MASK (np_where_gt0 msk) (category_id a) of
             Inl e \<Rightarrow> Inl e
           | Inr MASK' \<Rightarrow> paint_anns coco anns MASK'))"

text \<open>Lines 126 to 131: the label array of one image.\<close>

definition label_mask :: "'g coco \<Rightarrow> img_info \<Rightarrow> 'g ann list \<Rightarrow> error + ndarray" where
  "label_mask coco img anns =
     (case np_zeros (height img) (width img) of
        Inl e \<Rightarrow> Inl e
      | Inr MASK \<Rightarrow> paint_anns coco anns MASK)"

text \<open>\<^verbatim>\<open>name[:-4]\<close>: the name without its last four characters (empty when it is shorter).\<close>

definition root_name :: "string \<Rightarrow> string" where
  "root_name name = take (length name - 4) name"

text \<open>
  Lines 133 and 134, \<^verbatim>\<open>PIL\<close>. \<^verbatim>\<open>Image.fromarray(MASK)\<close> of a two-dimensional
  \<^verbatim>\<open>uint8\<close> array is a single-channel image (mode \<^verbatim>\<open>L\<close>) with the array's values; an
  array without rows or without columns gives no image that can be written, and the
  model raises \<^verbatim>\<open>ValueError\<close> for it there. \<^verbatim>\<open>im.save(path)\<close> takes the format from
  the extension of the path and raises \<^verbatim>\<open>ValueError\<close> when there is none (the path ends in
  \<^verbatim>\<open>.png\<close>, so the extension found is that or empty); then it opens the file for writing,
  which raises \<^verbatim>\<open>IOError\<close> when the directory of the path does not exist (the empty
  directory part is the current directory); then it writes the file. In each failing
  case nothing is written. Other failures of the operating system (permissions, a full
  disk) are outside the model.
\<close>

definition Image_fromarray :: "ndarray \<Rightarrow> error + ndarray" where
  "Image_fromarray MASK = (if MASK = [] \<or> hd MASK = [] then Inl ValueError else Inr MASK)"

definition dir_exists :: "world \<Rightarrow> string \<Rightarrow> bool" where
  "dir_exists w d = (d = [] \<or> dirs w d)"

definition im_save :: "ndarray \<Rightarrow> string \<Rightarrow> world \<Rightarrow> (error \<times> world) + world" where
  "im_save im path w =
     (if snd (os_path_splitext path) \<noteq> ''.png'' then Inl (ValueError, w)
      else if \<not> dir_exists w (os_path_dirname path) then Inl (IOError, w)
      else Inr (w\<lparr>files := files w @ [(path, im)]\<rparr>))"

text \<open>
  Lines 121 to 134: the body of the loop over the images. \<open>anns\<close> is
  \<^verbatim>\<open>imgToAnns[imgToAnns.keys()[img_num]]\<close>; both \<^verbatim>\<open>[0]\<close> raise \<^verbatim>\<open>IndexError\<close> on an
  empty list.
\<close>

definition process_image ::
    "'g coco \<Rightarrow> string \<Rightarrow> 'g ann list \<Rightarrow> world \<Rightarrow> (error \<times> world) + world" where
  "process_image coco seg_mask_path anns w =
     (case anns of
        [] \<Rightarrow> Inl (IndexError, w)
      | a0 # _ \<Rightarrow>
          (case loadImgs coco (image_id a0) of
             Inl e \<Rightarrow> Inl (e, w)
           | Inr [] \<Rightarrow> Inl (IndexError, w)
           | Inr (img # _) \<Rightarrow>
               (case label_mask coco img anns of
                  Inl e \<Rightarrow> Inl (e, w)
                | Inr MASK \<Rightarrow>
                    (case Image_fromarray MASK of
                       Inl e \<Rightarrow> Inl (e, w)
                     | Inr im \<Rightarrow>
                         im_save im
                           (os_path_join seg_mask_path (root_name (file_name img) @ ''.png''))
                           w))))"

text \<open>
  Lines 114 to 117: \<^verbatim>\<open>imgToAnns\<close> is a \<^verbatim>\<open>defaultdict(list)\<close>, kept here as an
  association list in insertion order. Reading a missing key gives the empty list.
\<close>

fun dd_append :: "(int \<times> 'a list) list \<Rightarrow> int \<Rightarrow> 'a \<Rightarrow> (int \<times> 'a list) list" where
  "dd_append [] k x = [(k, [x])]"
| "dd_append ((k', xs) # d) k x =
     (if k' = k then (k', xs @ [x]) # d else (k', xs) # dd_append d k x)"

definition dd_get :: "(int \<times> 'a list) list \<Rightarrow> int \<Rightarrow> 'a list" where
  "dd_get d k = (case map_of d k of None \<Rightarrow> [] | Some xs \<Rightarrow> xs)"

definition group_by_image :: "'g ann list \<Rightarrow> (int \<times> 'g ann list) list" where
  "group_by_image anns = fold (\<lambda>a d. dd_append d (image_id a) a) anns []"

text \<open>
  Lines 119 to 134: the loop over \<^verbatim>\<open>imgToAnns.keys()\<close>. An exception leaves the loop.
\<close>

fun images_loop ::
    "'g coco \<Rightarrow> string \<Rightarrow> (int \<times> 'g ann list) list \<Rightarrow> int list \<Rightarrow> world \<Rightarrow>
     (error \<times> world) + world" where
  "images_loop coco seg_mask_path d [] w = Inr w"
| "images_loop coco seg_mask_path d (k # ks) w =
     (case process_image coco seg_mask_path (dd_get d k) w of
        Inl e \<Rightarrow> Inl e
      | Inr w' \<Rightarrow> images_loop coco seg_mask_path d ks w')"

text \<open>
  Lines 113 to 142: the body of the loop over the zipped arguments. The order in which
  a Python 2 dictionary lists its keys is fixed by the interpreter's hash table, not by
  the source: \<open>dict_keys\<close> maps the keys in insertion order to the order of
  \<^verbatim>\<open>imgToAnns.keys()\<close>. Both \<^verbatim>\<open>print\<close> calls build their message from the whole list
  \<^verbatim>\<open>annotation_paths\<close>.
\<close>

definition convert_split ::
    "(string \<Rightarrow> string \<Rightarrow> error + 'g coco) \<Rightarrow> (int list \<Rightarrow> int list) \<Rightarrow> string list \<Rightarrow>
     string \<times> string \<times> string \<Rightarrow> world \<Rightarrow> (error \<times> world) + world" where
  "convert_split COCO dict_keys annotation_paths t w =
     (case t of (seg_mask_path, annFile, image_path) \<Rightarrow>
        (case COCO annFile image_path of
           Inl e \<Rightarrow> Inl (e, w)
         | Inr coco \<Rightarrow>
             (case dataset coco ''instances'' of
                Some instances \<Rightarrow>
                  (let imgToAnns = group_by_image instances
                   in images_loop coco seg_mask_path imgToAnns
                        (dict_keys (map fst imgToAnns)) w)
              | None \<Rightarrow>
                  (case dataset coco ''sentences'' of
                     Some _ \<Rightarrow>
                       (case py_add (py_add (py_add (py_add
                               (Inr ''Skipping due to no instances in annotations,'')
                               (PyStr '' sentences conversion not supported. Annotations: ''))
                               (PyList annotation_paths))
                               (PyStr '' image_path: ''))
                               (PyStr image_path) of
                          Inl e \<Rightarrow> Inl (e, w)
                        | Inr msg \<Rightarrow> Inr (py_print msg w))
                   | None \<Rightarrow>
                       (case py_add (py_add (py_add (py_add
                               (Inr ''Skipping due to no instances in annotations.'')
                               (PyStr '' Annotations: ''))
                               (PyList annotation_paths))
                               (PyStr '' image_path: ''))
                               (PyStr image_path) of
                          Inl e \<Rightarrow> Inl (e, w)
                        | Inr msg \<Rightarrow> Inr (py_print msg w))))))"

fun splits_loop ::
    "(string \<Rightarrow> string \<Rightarrow> error + 'g coco) \<Rightarrow> (int list \<Rightarrow> int list) \<Rightarrow> string list \<Rightarrow>
     (string \<times> string \<times> string) list \<Rightarrow> world \<Rightarrow> (error \<times> world) + world" where
  "splits_loop COCO dict_keys annotation_paths [] w = Inr w"
| "splits_loop COCO dict_keys annotation_paths (t # ts) w =
     (case convert_split COCO dict_keys annotation_paths t w of
        Inl e \<Rightarrow> Inl e
      | Inr w' \<Rightarrow> splits_loop COCO dict_keys annotation_paths ts w')"

definition coco_json_to_segmentation ::
    "(string \<Rightarrow> string \<Rightarrow> error + 'g coco) \<Rightarrow> (int list \<Rightarrow> int list) \<Rightarrow>
     string list \<Rightarrow> string list \<Rightarrow> string list \<Rightarrow> world \<Rightarrow> (error \<times> world) + world" where
  "coco_json_to_segmentation COCO dict_keys seg_mask_output_paths annotation_paths
       seg_mask_image_paths w =
     splits_loop COCO dict_keys annotation_paths
       (zip seg_mask_output_paths (zip annotation_paths seg_mask_image_paths)) w"

section \<open>coco_segmentation_to_tfrecord\<close>


text \<open>
  Modelled from the spec: the raster array that the record writer of
  \<^verbatim>\<open>tf_image_segmentation/utils/tf_records.py\<close> (not among the sources) loads from an
  image or mask file. The specification gives it a height, a width, a channel count and
  raw pixel bytes in row-major order, the integers being of a fixed byte width: the
  integers are words of a width \<open>'w\<close> that is left open, and a pixel sample is one byte.
\<close>

record 'i raster =
  r_height :: 'i
  r_width :: 'i
  r_depth :: 'i
  r_bytes :: "uint8 list"

text \<open>
  Modelled from the spec: a raster array holds height times width times channel count
  samples.
\<close>

definition wf_raster :: "('w::len) word raster \<Rightarrow> bool" where
  "wf_raster r = (length (r_bytes r) = unat (r_height r) * unat (r_width r) * unat (r_depth r))"

text \<open>
  Modelled from the spec: an integer of the record is encoded with a fixed, explicit byte
  width. The width is the number of bytes of a word of type \<open>'w\<close>, the bytes are
  written least significant first.
\<close>

fun enc_nat :: "nat \<Rightarrow> nat \<Rightarrow> uint8 list" where
  "enc_nat 0 v = []"
| "enc_nat (Suc n) v = of_nat (v mod 256) # enc_nat n (v div 256)"

fun dec_nat :: "uint8 list \<Rightarrow> nat" where
  "dec_nat [] = 0"
| "dec_nat (b # bs) = unat b + 256 * dec_nat bs"

definition int_width :: "('w::len) itself \<Rightarrow> nat" where
  "int_width t = (LENGTH('w) + 7) div 8"

definition encode_int :: "('w::len) word \<Rightarrow> uint8 list" where
  "encode_int x = enc_nat (int_width TYPE('w)) (unat x)"

definition decode_int :: "uint8 list \<Rightarrow> ('w::len) word" where
  "decode_int bs = of_nat (dec_nat bs)"

text \<open>
  Modelled from the spec: the record of one image/mask pair, built by the absent record
  writer. Image and mask must share height and width, a mismatch being a data-integrity
  error; the record holds the height, the width, the image channel depth, the mask
  channel depth, the raw image bytes and the raw mask bytes, in that order.
\<close>

definition encode_record ::
    "('w::len) word raster \<Rightarrow> 'w word raster \<Rightarrow> error + uint8 list" where
  "encode_record img msk =
     (if r_height img \<noteq> r_height msk \<or> r_width img \<noteq> r_width msk then Inl ShapeMismatch
      else Inr (encode_int (r_height img) @ encode_int (r_width img) @
                encode_int (r_depth img) @ encode_int (r_depth msk) @
                r_bytes img @ r_bytes msk))"

text \<open>
  Modelled from the spec: the inverse decode that a reader of the record container
  implements, from nothing but the height, width and channel fields of the record: the
  four integers, then height times width times image depth bytes of the image, then
  height times width times mask depth bytes of the mask. A record of any other length
  is refused.
\<close>

definition decode_record ::
    "uint8 list \<Rightarrow> error + (('w::len) word raster \<times> 'w word raster)" where
  "decode_record bs =
     (let n = int_width TYPE('w);
          h = (decode_int (take n bs) :: 'w word);
          w = (decode_int (take n (drop n bs)) :: 'w word);
          di = (decode_int (take n (drop (2 * n) bs)) :: 'w word);
          dm = (decode_int (take n (drop (3 * n) bs)) :: 'w word);
          body = drop (4 * n) bs;
          ni = unat h * unat w * unat di;
          nm = unat h * unat w * unat dm
      in if length bs < 4 * n \<or> length body \<noteq> ni + nm then Inl ValueError
         else Inr (\<lparr>r_height = h, r_width = w, r_depth = di, r_bytes = take ni body\<rparr>,
                   \<lparr>r_height = h, r_width = w, r_depth = dm, r_bytes = drop ni body\<rparr>))"






section \<open>Coverage of a pixel by an annotation\<close>

text \<open>
  The pixels an annotation covers are the positive cells of its decoded bitmap; an
  annotation that does not decode covers nothing. \<open>last_cover\<close> is the annotation
  processed last among those covering a pixel, \<open>decodes_to\<close> says that an annotation
  decodes to a bitmap whose rows have the given lengths, and \<open>non_overlapping\<close> that
  no pixel is covered by annotations at two positions of the list.
\<close>

definition cover_list :: "'g coco \<Rightarrow> 'g ann \<Rightarrow> (nat \<times> nat) list" where
  "cover_list coco a = (case annToMask coco a of Inl _ \<Rightarrow> [] | Inr m \<Rightarrow> np_where_gt0 m)"

definition covers :: "'g coco \<Rightarrow> 'g ann \<Rightarrow> nat \<times> nat \<Rightarrow> bool" where
  "covers coco a p = (p \<in> set (cover_list coco a))"

definition last_cover :: "'g coco \<Rightarrow> 'g ann list \<Rightarrow> nat \<times> nat \<Rightarrow> 'g ann option" where
  "last_cover coco anns p = find (\<lambda>a. covers coco a p) (rev anns)"

definition decodes_to :: "'g coco \<Rightarrow> nat list \<Rightarrow> 'g ann \<Rightarrow> bool" where
  "decodes_to coco sh a =
     (case annToMask coco a of Inl _ \<Rightarrow> False | Inr m \<Rightarrow> map length m = sh)"

text \<open>An annotation can be painted when it decodes and its category id fits a C long.\<close>

definition paintable :: "'g coco \<Rightarrow> nat list \<Rightarrow> 'g ann \<Rightarrow> bool" where
  "paintable coco sh a = (decodes_to coco sh a \<and> fits_c_long (category_id a))"

definition img_shape :: "img_info \<Rightarrow> nat list" where
  "img_shape img = replicate (nat (height img)) (nat (width img))"

fun non_overlapping :: "'g coco \<Rightarrow> 'g ann list \<Rightarrow> bool" where
  "non_overlapping coco [] = True"
| "non_overlapping coco (a # anns) =
     (list_all (\<lambda>b. list_all (\<lambda>p. p \<notin> set (cover_list coco b)) (cover_list coco a)) anns
      \<and> non_overlapping coco anns)"

section \<open>The name of a mask file, in the words of the specification\<close>




section \<open>Concrete inputs\<close>

text \<open>
  A stand-in for a loaded \<^verbatim>\<open>pycocotools\<close> object, used at the concrete inputs below:
  the geometry of an annotation is its decoded bitmap (\<open>None\<close> for a geometry that the
  decoder rejects), and \<open>loadImgs\<close> looks the identifier up in a table of image
  metadata, raising \<^verbatim>\<open>KeyError\<close> for an identifier that is not there.
\<close>

definition table_coco ::
    "(string \<rightharpoonup> ndarray option ann list) \<Rightarrow> (int \<times> img_info) list \<Rightarrow> ndarray option coco" where
  "table_coco ds imgs =
     \<lparr>dataset = ds,
      loadImgs = (\<lambda>i. case map_of imgs i of None \<Rightarrow> Inl KeyError | Some img \<Rightarrow> Inr [img]),
      annToMask = (\<lambda>a. case segmentation a of None \<Rightarrow> Inl ValueError | Some m \<Rightarrow> Inr m)\<rparr>"

text \<open>A world without files and output, in which only the directory \<^verbatim>\<open>out\<close> exists.\<close>

definition empty_world :: world where
  "empty_world = \<lparr>files = [], stdout = [], dirs = (\<lambda>d. d = ''out'')\<rparr>"


text \<open>An image of one row and two columns, and an annotation of category 300 on its second pixel.\<close>

definition img_1x2 :: img_info where
  "img_1x2 = \<lparr>height = 1, width = 2, file_name = ''a.jpg''\<rparr>"

definition ann_300 :: "ndarray option ann" where
  "ann_300 = \<lparr>image_id = 7, category_id = 300, segmentation = Some [[0, 1]]\<rparr>"


text \<open>
  Annotations on that image: category 3 on the first pixel, category 5 on the second,
  category 9 on both, and category 300 on both.
\<close>

definition ann_3_left :: "ndarray option ann" where
  "ann_3_left = \<lparr>image_id = 7, category_id = 3, segmentation = Some [[1, 0]]\<rparr>"

definition ann_5_right :: "ndarray option ann" where
  "ann_5_right = \<lparr>image_id = 7, category_id = 5, segmentation = Some [[0, 1]]\<rparr>"

definition ann_9_both :: "ndarray option ann" where
  "ann_9_both = \<lparr>image_id = 7, category_id = 9, segmentation = Some [[1, 1]]\<rparr>"

definition ann_300_both :: "ndarray option ann" where
  "ann_300_both = \<lparr>image_id = 7, category_id = 300, segmentation = Some [[1, 1]]\<rparr>"

definition no_coco :: "ndarray option coco" where
  "no_coco = table_coco Map.empty []"

text \<open>
  An annotation whose geometry the decoder rejects, and loaded annotation sources: one
  with two instances and their image, one whose second instance is malformed, one whose
  image metadata is missing, one whose image file is named \<^verbatim>\<open>/tmp/a.jpeg\<close>, one
  that holds captions only and one that holds neither instances nor captions.
\<close>

definition ann_malformed :: "ndarray option ann" where
  "ann_malformed = \<lparr>image_id = 7, category_id = 5, segmentation = None\<rparr>"



definition coco_malformed :: "ndarray option coco" where
  "coco_malformed =
     table_coco [''instances'' \<mapsto> [ann_3_left, ann_malformed, ann_5_right]] [(7, img_1x2)]"

definition coco_no_metadata :: "ndarray option coco" where
  "coco_no_metadata = table_coco [''instances'' \<mapsto> [ann_3_left]] []"


definition coco_captions :: "ndarray option coco" where
  "coco_captions = table_coco [''sentences'' \<mapsto> []] []"

definition coco_keypoints :: "ndarray option coco" where
  "coco_keypoints = table_coco [''annotations'' \<mapsto> []] []"

text \<open>The constructor \<^verbatim>\<open>COCO\<close> that loads the given object from every path.\<close>

definition loads :: "'g coco \<Rightarrow> string \<Rightarrow> string \<Rightarrow> error + 'g coco" where
  "loads coco annFile image_path = Inr coco"



definition raster_rgb :: "32 word raster" where
  "raster_rgb = \<lparr>r_height = 1, r_width = 2, r_depth = 3, r_bytes = [1, 2, 3, 4, 5, 6]\<rparr>"

definition raster_mask :: "32 word raster" where
  "raster_mask = \<lparr>r_height = 1, r_width = 2, r_depth = 1, r_bytes = [0, 7]\<rparr>"



section \<open>Properties of the array operations\<close>

lemma set_np_where_gt0:
  "set (np_where_gt0 m) = {(r, c). r < length m \<and> c < length (m ! r) \<and> 0 < m ! r ! c}"
  by (auto simp: np_where_gt0_def)

lemma in_bounds_shape:
  "map length M = map length N \<Longrightarrow> in_bounds M p = in_bounds N p"
  unfolding in_bounds_def
  by (metis length_map nth_map)

lemma set_cell_shape: "map length (set_cell v p M) = map length M"
  by (cases "fst p < length M")
     (auto simp: set_cell_def nth_list_update intro!: nth_equalityI)

lemma fold_set_cell_shape: "map length (fold (set_cell v) ids M) = map length M"
  by (induction ids arbitrary: M) (simp_all add: set_cell_shape)

lemma set_cell_nth:
  "in_bounds M q \<Longrightarrow> in_bounds M p \<Longrightarrow>
   set_cell v q M ! fst p ! snd p = (if p = q then v else M ! fst p ! snd p)"
  by (cases p; cases q) (auto simp: set_cell_def in_bounds_def nth_list_update)

lemma fold_set_cell_nth:
  "list_all (in_bounds M) ids \<Longrightarrow> in_bounds M p \<Longrightarrow>
   fold (set_cell v) ids M ! fst p ! snd p = (if p \<in> set ids then v else M ! fst p ! snd p)"
proof (induction ids arbitrary: M)
  case Nil
  then show ?case by simp
next
  case (Cons q ids)
  have sh: "map length (set_cell v q M) = map length M" by (rule set_cell_shape)
  have b: "list_all (in_bounds (set_cell v q M)) ids"
    using Cons.prems(1) in_bounds_shape [OF sh] by (simp add: list_all_iff)
  have p: "in_bounds (set_cell v q M) p"
    using Cons.prems(2) in_bounds_shape [OF sh] by simp
  have q: "in_bounds M q" using Cons.prems(1) by simp
  show ?case
    using Cons.IH [OF b p] set_cell_nth [OF q Cons.prems(2), of v] by auto
qed

lemma find_append_split:
  "find P (xs @ ys) = (case find P xs of None \<Rightarrow> find P ys | Some x \<Rightarrow> Some x)"
  by (induction xs) auto

lemma last_cover_Cons:
  "last_cover coco (a # anns) p =
     (case last_cover coco anns p of
        None \<Rightarrow> (if covers coco a p then Some a else None)
      | Some b \<Rightarrow> Some b)"
  by (simp add: last_cover_def find_append_split split: option.splits)

lemma where_in_bounds: "p \<in> set (np_where_gt0 m) \<Longrightarrow> in_bounds m p"
  by (auto simp: set_np_where_gt0 in_bounds_def)

lemma paintable_all:
  "list_all (decodes_to coco sh) anns \<Longrightarrow> list_all (\<lambda>a. fits_c_long (category_id a)) anns \<Longrightarrow>
   list_all (paintable coco sh) anns"
  by (simp add: list_all_iff paintable_def)

lemma fits_uint8: "0 \<le> k \<Longrightarrow> k \<le> 255 \<Longrightarrow> fits_c_long k"
  by (simp add: fits_c_long_def)

lemma paint_anns_total:
  assumes "list_all (paintable coco (map length M)) anns"
  shows "\<exists>M'. paint_anns coco anns M = Inr M' \<and> map length M' = map length M \<and>
           (\<forall>p. in_bounds M p \<longrightarrow>
              M' ! fst p ! snd p =
                (case last_cover coco anns p of
                   None \<Rightarrow> M ! fst p ! snd p
                 | Some a \<Rightarrow> word_of_int (category_id a)))"
  using assms
proof (induction anns arbitrary: M)
  case Nil
  then show ?case by (simp add: last_cover_def)
next
  case (Cons a anns)
  from Cons.prems obtain m where m: "annToMask coco a = Inr m" "map length m = map length M"
    by (auto simp: paintable_def decodes_to_def split: sum.splits)
  from Cons.prems have fit: "fits_c_long (category_id a)"
    by (simp add: paintable_def)
  define M1 where "M1 = fold (set_cell (word_of_int (category_id a))) (np_where_gt0 m) M"
  have bnd: "list_all (in_bounds M) (np_where_gt0 m)"
    using where_in_bounds [of _ m] in_bounds_shape [OF m(2)] by (auto simp: list_all_iff)
  have s: "setitem M (np_where_gt0 m) (category_id a) = Inr M1"
    unfolding M1_def using bnd fit by (simp add: setitem_def)
  have sh1: "map length M1 = map length M"
    unfolding M1_def by (rule fold_set_cell_shape)
  have "list_all (paintable coco (map length M1)) anns"
    using Cons.prems sh1 by simp
  from Cons.IH [OF this] obtain M' where M':
    "paint_anns coco anns M1 = Inr M'" "map length M' = map length M1"
    "\<forall>p. in_bounds M1 p \<longrightarrow>
        M' ! fst p ! snd p =
          (case last_cover coco anns p of
             None \<Rightarrow> M1 ! fst p ! snd p
           | Some a \<Rightarrow> word_of_int (category_id a))"
    by blast
  have cell: "M1 ! fst p ! snd p =
      (if covers coco a p then word_of_int (category_id a) else M ! fst p ! snd p)"
    if "in_bounds M p" for p
    unfolding M1_def using fold_set_cell_nth [OF bnd that]
    by (simp add: covers_def cover_list_def m(1))
  have "paint_anns coco (a # anns) M = Inr M'"
    by (simp add: m(1) s M'(1))
  moreover have "map length M' = map length M"
    using M'(2) sh1 by simp
  moreover have "M' ! fst p ! snd p =
      (case last_cover coco (a # anns) p of
         None \<Rightarrow> M ! fst p ! snd p
       | Some a \<Rightarrow> word_of_int (category_id a))" if "in_bounds M p" for p
  proof -
    have "in_bounds M1 p" using that in_bounds_shape [OF sh1] by simp
    with M'(3) have "M' ! fst p ! snd p =
          (case last_cover coco anns p of
             None \<Rightarrow> M1 ! fst p ! snd p
           | Some a \<Rightarrow> word_of_int (category_id a))" by blast
    then show ?thesis
      using cell [OF that] by (simp add: last_cover_Cons split: option.splits)
  qed
  ultimately show ?case by blast
qed

lemma label_mask_total:
  assumes "0 \<le> height img" "0 \<le> width img"
    and "list_all (paintable coco (img_shape img)) anns"
  shows "\<exists>MASK. label_mask coco img anns = Inr MASK \<and> map length MASK = img_shape img \<and>
           (\<forall>r c. r < nat (height img) \<longrightarrow> c < nat (width img) \<longrightarrow>
              MASK ! r ! c =
                (case last_cover coco anns (r, c) of
                   None \<Rightarrow> 0
                 | Some a \<Rightarrow> word_of_int (category_id a)))"
proof -
  define Z :: ndarray where "Z = replicate (nat (height img)) (replicate (nat (width img)) 0)"
  have z: "np_zeros (height img) (width img) = Inr Z"
    using assms(1,2) by (simp add: np_zeros_def Z_def)
  have sh: "map length Z = img_shape img"
    by (simp add: Z_def img_shape_def)
  from paint_anns_total [of coco Z anns] assms(3) sh obtain M' where M':
    "paint_anns coco anns Z = Inr M'" "map length M' = map length Z"
    "\<forall>p. in_bounds Z p \<longrightarrow>
        M' ! fst p ! snd p =
          (case last_cover coco anns p of
             None \<Rightarrow> Z ! fst p ! snd p
           | Some a \<Rightarrow> word_of_int (category_id a))"
    by auto
  have "M' ! r ! c =
      (case last_cover coco anns (r, c) of None \<Rightarrow> 0 | Some a \<Rightarrow> word_of_int (category_id a))"
    if "r < nat (height img)" "c < nat (width img)" for r c
  proof -
    have "in_bounds Z (r, c)" using that by (simp add: in_bounds_def Z_def)
    from M'(3) [rule_format, OF this] have "M' ! r ! c =
          (case last_cover coco anns (r, c) of
             None \<Rightarrow> Z ! r ! c
           | Some a \<Rightarrow> word_of_int (category_id a))" by (simp split: option.splits)
    moreover have "Z ! r ! c = 0" using that by (simp add: Z_def)
    ultimately show ?thesis by (simp split: option.splits)
  qed
  then show ?thesis
    using M'(1,2) z sh by (auto simp: label_mask_def)
qed

lemma last_cover_SomeD:
  "last_cover coco anns p = Some a \<Longrightarrow> a \<in> set anns \<and> covers coco a p"
  by (auto simp: last_cover_def find_Some_iff) (metis nth_mem length_rev set_rev)

lemma covers_in_shape:
  assumes "decodes_to coco (img_shape img) a" "covers coco a (r, c)"
  shows "r < nat (height img) \<and> c < nat (width img)"
proof -
  from assms(1) obtain m where m: "annToMask coco a = Inr m" "map length m = img_shape img"
    by (auto simp: decodes_to_def split: sum.splits)
  from assms(2) m(1) have "r < length m" "c < length (m ! r)"
    by (auto simp: covers_def cover_list_def set_np_where_gt0)
  moreover have "length m = nat (height img)"
    using m(2) by (metis length_map length_replicate img_shape_def)
  moreover have "length (m ! r) = nat (width img)" if "r < length m"
    using m(2) that by (metis nth_map nth_replicate img_shape_def \<open>length m = nat (height img)\<close>)
  ultimately show ?thesis by simp
qed

section \<open>The element type of the label array\<close>




section \<open>Evaluation at the concrete inputs\<close>

lemma replicate_two: "replicate 2 x = [x, x]"
  by (simp add: numeral_2_eq_2)

lemma cover_list_fixtures:
  "cover_list no_coco ann_300 = [(0, 1)]"
  "cover_list no_coco ann_3_left = [(0, 0)]"
  "cover_list no_coco ann_5_right = [(0, 1)]"
  "cover_list no_coco ann_9_both = [(0, 0), (0, 1)]"
  "cover_list no_coco ann_300_both = [(0, 0), (0, 1)]"
  by (simp_all add: cover_list_def no_coco_def table_coco_def np_where_gt0_def
      ann_300_def ann_3_left_def ann_5_right_def ann_9_both_def ann_300_both_def)

lemma decodes_to_fixtures:
  "decodes_to no_coco (img_shape img_1x2) ann_300"
  "decodes_to no_coco (img_shape img_1x2) ann_3_left"
  "decodes_to no_coco (img_shape img_1x2) ann_5_right"
  "decodes_to no_coco (img_shape img_1x2) ann_9_both"
  "decodes_to no_coco (img_shape img_1x2) ann_300_both"
  by (simp_all add: decodes_to_def img_shape_def img_1x2_def no_coco_def table_coco_def
      ann_300_def ann_3_left_def ann_5_right_def ann_9_both_def ann_300_both_def)

lemma label_mask_fixtures:
  "label_mask no_coco img_1x2 [ann_300] = Inr [[0, 44]]"
  "label_mask no_coco img_1x2 [ann_3_left, ann_5_right] = Inr [[3, 5]]"
  "label_mask no_coco img_1x2 [ann_3_left, ann_9_both] = Inr [[9, 9]]"
  "label_mask no_coco img_1x2 [ann_3_left, ann_300_both] = Inr [[44, 44]]"
  by (simp_all add: label_mask_def np_zeros_def img_1x2_def replicate_two setitem_def
      fits_c_long_def in_bounds_def set_cell_def no_coco_def table_coco_def np_where_gt0_def
      ann_300_def ann_3_left_def ann_5_right_def ann_9_both_def ann_300_both_def)

lemma dims_img_1x2: "0 \<le> height img_1x2" "0 \<le> width img_1x2"
  by (simp_all add: img_1x2_def)

lemma category_fixtures:
  "category_id ann_300 = 300" "category_id ann_3_left = 3" "category_id ann_5_right = 5"
  "category_id ann_9_both = 9" "category_id ann_300_both = 300"
  by (simp_all add: ann_300_def ann_3_left_def ann_5_right_def ann_9_both_def ann_300_both_def)

section \<open>The annotation that covers a pixel last\<close>

lemma last_cover_NoneD:
  "last_cover coco anns p = None \<Longrightarrow> a \<in> set anns \<Longrightarrow> \<not> covers coco a p"
  by (auto simp: last_cover_def find_None_iff)

lemma non_overlapping_last_cover:
  "non_overlapping coco anns \<Longrightarrow> a \<in> set anns \<Longrightarrow> covers coco a p \<Longrightarrow>
   last_cover coco anns p = Some a"
proof (induction anns)
  case Nil
  then show ?case by simp
next
  case (Cons x xs)
  show ?case
  proof (cases "a \<in> set xs")
    case True
    with Cons have "last_cover coco xs p = Some a" by simp
    then show ?thesis by (simp add: last_cover_Cons)
  next
    case False
    with Cons.prems(2) have ax: "a = x" by simp
    have "\<not> covers coco b p" if "b \<in> set xs" for b
      using Cons.prems(1,3) that ax by (auto simp: list_all_iff covers_def)
    then have "last_cover coco xs p = None"
      by (auto simp: last_cover_def find_None_iff)
    then show ?thesis using Cons.prems(3) ax by (simp add: last_cover_Cons)
  qed
qed

lemma uint8_exact: "0 \<le> k \<Longrightarrow> k \<le> 255 \<Longrightarrow> uint (word_of_int k :: uint8) = k"
  by (simp add: uint_word_of_int)

section \<open>Annotations that do not overlap\<close>

text \<open>
  C1 (amended): for an image whose annotations decode to bitmaps of the image's shape,
  do not overlap and have category ids between 1 and 255, the label array holds the
  category id \<open>C\<close> at exactly the pixels covered by an annotation of category \<open>C\<close>,
  and 0 at exactly the pixels that no annotation covers. Without the bound on the
  category ids the claim fails: an id of 300 is stored as 44.
\<close>

theorem nonoverlapping_label_mask:
  assumes "0 \<le> height img" and "0 \<le> width img"
    and "list_all (decodes_to coco (img_shape img)) anns"
    and "list_all (\<lambda>a. 1 \<le> category_id a \<and> category_id a \<le> 255) anns"
    and "non_overlapping coco anns"
  shows "\<exists>MASK. label_mask coco img anns = Inr MASK \<and> map length MASK = img_shape img \<and>
           (\<forall>r c. r < nat (height img) \<and> c < nat (width img) \<longrightarrow>
              (\<forall>C. C \<noteq> 0 \<longrightarrow>
                 (uint (MASK ! r ! c) = C) =
                 (\<exists>a \<in> set anns. category_id a = C \<and> covers coco a (r, c))) \<and>
              ((MASK ! r ! c = 0) = (\<forall>a \<in> set anns. \<not> covers coco a (r, c))))"
proof -
  have fit: "list_all (\<lambda>a. fits_c_long (category_id a)) anns"
    using assms(4) by (auto simp: list_all_iff intro!: fits_uint8)
  from label_mask_total [OF assms(1,2) paintable_all [OF assms(3) fit]] obtain MASK where M:
    "label_mask coco img anns = Inr MASK" "map length MASK = img_shape img"
    "\<forall>r c. r < nat (height img) \<longrightarrow> c < nat (width img) \<longrightarrow>
        MASK ! r ! c =
          (case last_cover coco anns (r, c) of None \<Rightarrow> 0 | Some a \<Rightarrow> word_of_int (category_id a))"
    by blast
  have px: "(\<forall>C. C \<noteq> 0 \<longrightarrow>
                 (uint (MASK ! r ! c) = C) =
                 (\<exists>a \<in> set anns. category_id a = C \<and> covers coco a (r, c))) \<and>
              ((MASK ! r ! c = 0) = (\<forall>a \<in> set anns. \<not> covers coco a (r, c)))"
    if rc: "r < nat (height img)" "c < nat (width img)" for r c
  proof (cases "last_cover coco anns (r, c)")
    case None
    with M(3) rc have z: "MASK ! r ! c = 0" by simp
    have n: "\<forall>a \<in> set anns. \<not> covers coco a (r, c)"
      using last_cover_NoneD [OF None] by blast
    have "(uint (MASK ! r ! c) = C) =
          (\<exists>a \<in> set anns. category_id a = C \<and> covers coco a (r, c))" if "C \<noteq> 0" for C
      using z n that by auto
    then show ?thesis using z n by simp
  next
    case (Some a)
    from last_cover_SomeD [OF Some] have a: "a \<in> set anns" "covers coco a (r, c)"
      by simp_all
    from a(1) assms(4) have rng: "1 \<le> category_id a" "category_id a \<le> 255"
      by (simp_all add: list_all_iff)
    from M(3) rc Some have "MASK ! r ! c = word_of_int (category_id a)" by simp
    then have u: "uint (MASK ! r ! c) = category_id a"
      using rng by (simp add: uint8_exact)
    have only: "b = a" if "b \<in> set anns" "covers coco b (r, c)" for b
      using non_overlapping_last_cover [OF assms(5) that] Some by simp
    have nz: "MASK ! r ! c \<noteq> 0"
      using u rng by auto
    have A: "(uint (MASK ! r ! c) = C) =
          (\<exists>b \<in> set anns. category_id b = C \<and> covers coco b (r, c))" for C
    proof
      assume "uint (MASK ! r ! c) = C"
      with u a show "\<exists>b \<in> set anns. category_id b = C \<and> covers coco b (r, c)"
        by auto
    next
      assume "\<exists>b \<in> set anns. category_id b = C \<and> covers coco b (r, c)"
      then obtain b where b: "b \<in> set anns" "category_id b = C" "covers coco b (r, c)"
        by blast
      from only [OF b(1,3)] b(2) u show "uint (MASK ! r ! c) = C" by simp
    qed
    have B: "(MASK ! r ! c = 0) = (\<forall>a \<in> set anns. \<not> covers coco a (r, c))"
      using nz a by blast
    show ?thesis
    proof (intro conjI allI impI)
      fix C :: int
      show "(uint (MASK ! r ! c) = C) =
          (\<exists>b \<in> set anns. category_id b = C \<and> covers coco b (r, c))" by (rule A)
    next
      show "(MASK ! r ! c = 0) = (\<forall>a \<in> set anns. \<not> covers coco a (r, c))" by (rule B)
    qed
  qed
  show ?thesis
  proof (intro exI conjI allI impI)
    show "label_mask coco img anns = Inr MASK" by (rule M(1))
    show "map length MASK = img_shape img" by (rule M(2))
  next
    fix r c :: nat and C :: int
    assume "r < nat (height img) \<and> c < nat (width img)" "C \<noteq> 0"
    with px [of r c] show "(uint (MASK ! r ! c) = C) =
          (\<exists>b \<in> set anns. category_id b = C \<and> covers coco b (r, c))" by simp
  next
    fix r c
    assume "r < nat (height img) \<and> c < nat (width img)"
    with px [of r c] show "(MASK ! r ! c = 0) = (\<forall>a \<in> set anns. \<not> covers coco a (r, c))"
      by simp
  qed
qed

theorem nonoverlapping_label_mask_witness:
  "0 \<le> height img_1x2 \<and> 0 \<le> width img_1x2 \<and>
   list_all (decodes_to no_coco (img_shape img_1x2)) [ann_3_left, ann_5_right] \<and>
   list_all (\<lambda>a. 1 \<le> category_id a \<and> category_id a \<le> 255) [ann_3_left, ann_5_right] \<and>
   non_overlapping no_coco [ann_3_left, ann_5_right] \<and>
   (\<exists>MASK. label_mask no_coco img_1x2 [ann_3_left, ann_5_right] = Inr MASK \<and>
      uint (MASK ! 0 ! 0) = 3 \<and> uint (MASK ! 0 ! 1) = 5)"
proof -
  have h: "0 \<le> height img_1x2" "0 \<le> width img_1x2"
    "list_all (decodes_to no_coco (img_shape img_1x2)) [ann_3_left, ann_5_right]"
    "list_all (\<lambda>a. 1 \<le> category_id a \<and> category_id a \<le> 255) [ann_3_left, ann_5_right]"
    "non_overlapping no_coco [ann_3_left, ann_5_right]"
    by (simp_all add: dims_img_1x2 decodes_to_fixtures category_fixtures cover_list_fixtures)
  have e: "label_mask no_coco img_1x2 [ann_3_left, ann_5_right] = Inr [[3, 5]]"
    by (rule label_mask_fixtures)
  show ?thesis
    using h nonoverlapping_label_mask [OF h] by (simp add: e)
qed

theorem nonoverlapping_label_mask_counterexample:
  "non_overlapping no_coco [ann_300] \<and>
   covers no_coco ann_300 (0, 1) \<and>
   category_id ann_300 = 300 \<and>
   label_mask no_coco img_1x2 [ann_300] = Inr [[0, 44]]"
  by (simp add: covers_def cover_list_fixtures category_fixtures label_mask_fixtures)


section \<open>Overlapping annotations\<close>

text \<open>
  C2 (amended): when the annotations of an image decode to bitmaps of the image's shape
  and have category ids between 0 and 255, every pixel of the label array holds the
  category id of the annotation processed last among those covering it (0 when none
  does), with no other compositing; in particular, for the annotations \<open>[A, B]\<close> every
  pixel covered by both holds the category id of \<open>B\<close>. Without the bound the pixel
  holds the id of \<open>B\<close> modulo 256.
\<close>

theorem last_writer_wins:
  assumes "0 \<le> height img" and "0 \<le> width img"
    and "list_all (decodes_to coco (img_shape img)) anns"
    and "list_all (\<lambda>a. 0 \<le> category_id a \<and> category_id a \<le> 255) anns"
  shows "\<exists>MASK. label_mask coco img anns = Inr MASK \<and>
           (\<forall>r c. r < nat (height img) \<and> c < nat (width img) \<longrightarrow>
              uint (MASK ! r ! c) =
                (case last_cover coco anns (r, c) of None \<Rightarrow> 0 | Some a \<Rightarrow> category_id a)) \<and>
           (\<forall>A B r c. anns = [A, B] \<and> covers coco A (r, c) \<and> covers coco B (r, c) \<longrightarrow>
              uint (MASK ! r ! c) = category_id B)"
proof -
  have fit: "list_all (\<lambda>a. fits_c_long (category_id a)) anns"
    using assms(4) by (auto simp: list_all_iff intro!: fits_uint8)
  from label_mask_total [OF assms(1,2) paintable_all [OF assms(3) fit]] obtain MASK where M:
    "label_mask coco img anns = Inr MASK"
    "\<forall>r c. r < nat (height img) \<longrightarrow> c < nat (width img) \<longrightarrow>
        MASK ! r ! c =
          (case last_cover coco anns (r, c) of None \<Rightarrow> 0 | Some a \<Rightarrow> word_of_int (category_id a))"
    by blast
  have px: "uint (MASK ! r ! c) =
      (case last_cover coco anns (r, c) of None \<Rightarrow> 0 | Some a \<Rightarrow> category_id a)"
    if rc: "r < nat (height img)" "c < nat (width img)" for r c
  proof (cases "last_cover coco anns (r, c)")
    case None
    with M(2) rc show ?thesis by simp
  next
    case (Some a)
    from last_cover_SomeD [OF Some] assms(4)
    have "0 \<le> category_id a" "category_id a \<le> 255"
      by (simp_all add: list_all_iff)
    with M(2) rc Some show ?thesis by (simp add: uint8_exact)
  qed
  have two: "uint (MASK ! r ! c) = category_id B"
    if "anns = [A, B]" "covers coco A (r, c)" "covers coco B (r, c)" for A B r c
  proof -
    have lc: "last_cover coco anns (r, c) = Some B"
      using that by (simp add: last_cover_def)
    from assms(3) that(1) have "decodes_to coco (img_shape img) B" by simp
    from covers_in_shape [OF this that(3)] have "r < nat (height img)" "c < nat (width img)"
      by simp_all
    from px [OF this] lc show ?thesis by simp
  qed
  show ?thesis
  proof (intro exI conjI allI impI)
    show "label_mask coco img anns = Inr MASK" by (rule M(1))
  next
    fix r c :: nat
    assume "r < nat (height img) \<and> c < nat (width img)"
    then show "uint (MASK ! r ! c) =
      (case last_cover coco anns (r, c) of None \<Rightarrow> 0 | Some a \<Rightarrow> category_id a)"
      using px [of r c] by simp
  next
    fix A B :: "'a ann" and r c :: nat
    assume "anns = [A, B] \<and> covers coco A (r, c) \<and> covers coco B (r, c)"
    then show "uint (MASK ! r ! c) = category_id B"
      using two [of A B r c] by simp
  qed
qed

theorem last_writer_wins_witness:
  "0 \<le> height img_1x2 \<and> 0 \<le> width img_1x2 \<and>
   list_all (decodes_to no_coco (img_shape img_1x2)) [ann_3_left, ann_9_both] \<and>
   list_all (\<lambda>a. 0 \<le> category_id a \<and> category_id a \<le> 255) [ann_3_left, ann_9_both] \<and>
   covers no_coco ann_3_left (0, 0) \<and> covers no_coco ann_9_both (0, 0) \<and>
   (\<exists>MASK. label_mask no_coco img_1x2 [ann_3_left, ann_9_both] = Inr MASK \<and>
      uint (MASK ! 0 ! 0) = category_id ann_9_both)"
proof -
  have h: "0 \<le> height img_1x2" "0 \<le> width img_1x2"
    "list_all (decodes_to no_coco (img_shape img_1x2)) [ann_3_left, ann_9_both]"
    "list_all (\<lambda>a. 0 \<le> category_id a \<and> category_id a \<le> 255) [ann_3_left, ann_9_both]"
    by (simp_all add: dims_img_1x2 decodes_to_fixtures category_fixtures)
  have c: "covers no_coco ann_3_left (0, 0)" "covers no_coco ann_9_both (0, 0)"
    by (simp_all add: covers_def cover_list_fixtures)
  have e: "label_mask no_coco img_1x2 [ann_3_left, ann_9_both] = Inr [[9, 9]]"
    by (rule label_mask_fixtures)
  show ?thesis
    using h c last_writer_wins [OF h] by (simp add: e category_fixtures)
qed

theorem last_writer_wins_counterexample:
  "covers no_coco ann_3_left (0, 0) \<and> covers no_coco ann_300_both (0, 0) \<and>
   category_id ann_300_both = 300 \<and>
   label_mask no_coco img_1x2 [ann_3_left, ann_300_both] = Inr [[44, 44]]"
  by (simp add: covers_def cover_list_fixtures category_fixtures label_mask_fixtures)


section \<open>Exceptions, file names and the skip branches\<close>

lemma paint_anns_append:
  "paint_anns coco (xs @ ys) M =
     (case paint_anns coco xs M of Inl e \<Rightarrow> Inl e | Inr M' \<Rightarrow> paint_anns coco ys M')"
  by (induction xs arbitrary: M) (auto split: sum.splits)

lemma paint_anns_overflow:
  assumes "list_all (decodes_to coco (map length M)) anns"
    and "\<not> list_all (\<lambda>b. fits_c_long (category_id b)) anns"
  shows "paint_anns coco anns M = Inl OverflowError"
  using assms
proof (induction anns arbitrary: M)
  case Nil
  then show ?case by simp
next
  case (Cons a anns)
  from Cons.prems(1) obtain m where m: "annToMask coco a = Inr m" "map length m = map length M"
    by (auto simp: decodes_to_def split: sum.splits)
  show ?case
  proof (cases "fits_c_long (category_id a)")
    case False
    then show ?thesis by (simp add: m(1) setitem_def)
  next
    case True
    define M1 where "M1 = fold (set_cell (word_of_int (category_id a))) (np_where_gt0 m) M"
    have bnd: "list_all (in_bounds M) (np_where_gt0 m)"
      using where_in_bounds [of _ m] in_bounds_shape [OF m(2)] by (auto simp: list_all_iff)
    have s: "setitem M (np_where_gt0 m) (category_id a) = Inr M1"
      unfolding M1_def using bnd True by (simp add: setitem_def)
    have sh1: "map length M1 = map length M"
      unfolding M1_def by (rule fold_set_cell_shape)
    have "paint_anns coco anns M1 = Inl OverflowError"
      using Cons.IH [of M1] Cons.prems True sh1 by simp
    then show ?thesis by (simp add: m(1) s)
  qed
qed

lemma label_mask_fails:
  assumes "0 \<le> height img" and "0 \<le> width img"
    and "list_all (decodes_to coco (img_shape img)) pre"
    and "annToMask coco a = Inl e"
  shows "label_mask coco img (pre @ a # post) =
           Inl (if list_all (\<lambda>b. fits_c_long (category_id b)) pre then e else OverflowError)"
proof -
  define Z :: ndarray where "Z = replicate (nat (height img)) (replicate (nat (width img)) 0)"
  have z: "np_zeros (height img) (width img) = Inr Z"
    using assms(1,2) by (simp add: np_zeros_def Z_def)
  have sh: "map length Z = img_shape img"
    by (simp add: Z_def img_shape_def)
  show ?thesis
  proof (cases "list_all (\<lambda>b. fits_c_long (category_id b)) pre")
    case True
    with assms(3) sh have "list_all (paintable coco (map length Z)) pre"
      by (simp add: paintable_all)
    from paint_anns_total [OF this] obtain M' where "paint_anns coco pre Z = Inr M'"
      by blast
    then have "paint_anns coco (pre @ a # post) Z = Inl e"
      by (simp add: paint_anns_append assms(4))
    with z True show ?thesis by (simp add: label_mask_def)
  next
    case False
    from assms(3) sh have "list_all (decodes_to coco (map length Z)) pre" by simp
    from paint_anns_overflow [OF this False]
    have "paint_anns coco (pre @ a # post) Z = Inl OverflowError"
      by (simp add: paint_anns_append)
    with z False show ?thesis by (simp add: label_mask_def)
  qed
qed

text \<open>
  C7 (amended): there is no handler around \<^verbatim>\<open>coco.annToMask\<close>. When the decoder raises
  on an annotation of an image (the annotations before it having been painted), the
  exception leaves the loop over the annotations, the loop over the images and the
  function: the annotations after it are not processed, no mask file is written for the
  image and nothing is printed. (When an annotation before it has a category id that
  does not fit a C long, the exception that does all this is that annotation's
  \<^verbatim>\<open>OverflowError\<close>.)
\<close>

theorem malformed_geometry_aborts:
  assumes "anns = pre @ a # post"
    and "loadImgs coco (image_id (hd anns)) = Inr (img # others)"
    and "0 \<le> height img" and "0 \<le> width img"
    and "list_all (decodes_to coco (img_shape img)) pre"
    and "annToMask coco a = Inl e"
    and "dd_get d k = anns"
  shows "process_image coco seg_mask_path anns w =
           Inl (if list_all (\<lambda>b. fits_c_long (category_id b)) pre then e else OverflowError, w) \<and>
         images_loop coco seg_mask_path d (k # ks) w =
           Inl (if list_all (\<lambda>b. fits_c_long (category_id b)) pre then e else OverflowError, w)"
proof -
  let ?e = "if list_all (\<lambda>b. fits_c_long (category_id b)) pre then e else OverflowError"
  have l: "label_mask coco img anns = Inl ?e"
    unfolding assms(1) by (rule label_mask_fails [OF assms(3-6)])
  obtain a0 rest where c: "anns = a0 # rest"
    using assms(1) by (cases pre) auto
  with assms(2) have "loadImgs coco (image_id a0) = Inr (img # others)" by simp
  with c l have p: "process_image coco seg_mask_path anns w = Inl (?e, w)"
    by (simp add: process_image_def)
  then show ?thesis by (simp add: assms(7))
qed

text \<open>
  C8 (amended): there is no handler around \<^verbatim>\<open>coco.loadImgs(...)[0]\<close>. When the lookup of
  the image metadata raises, or returns no entry, the exception leaves the loop over the
  images and the function: no annotation is dropped, no mask file is written for the
  image and nothing is printed.
\<close>

theorem missing_metadata_aborts:
  assumes "anns = a0 # rest"
    and "loadImgs coco (image_id a0) = Inl e \<or>
         loadImgs coco (image_id a0) = Inr [] \<and> e = IndexError"
    and "dd_get d k = anns"
  shows "process_image coco seg_mask_path anns w = Inl (e, w) \<and>
         images_loop coco seg_mask_path d (k # ks) w = Inl (e, w)"
proof -
  from assms(1,2) have "process_image coco seg_mask_path anns w = Inl (e, w)"
    by (auto simp: process_image_def)
  then show ?thesis by (simp add: assms(3))
qed







lemma table_coco_sel:
  "dataset (table_coco ds imgs) = ds"
  "loadImgs (table_coco ds imgs) i =
     (case map_of imgs i of None \<Rightarrow> Inl KeyError | Some img \<Rightarrow> Inr [img])"
  "annToMask (table_coco ds imgs) a =
     (case segmentation a of None \<Rightarrow> Inl ValueError | Some m \<Rightarrow> Inr m)"
  by (simp_all add: table_coco_def)

lemma paint_anns_cong:
  "annToMask c1 = annToMask c2 \<Longrightarrow> paint_anns c1 anns M = paint_anns c2 anns M"
  by (induction anns arbitrary: M) (auto split: sum.splits)

lemma label_mask_table_coco:
  "label_mask (table_coco ds imgs) img anns = label_mask no_coco img anns"
proof -
  have "annToMask (table_coco ds imgs) = annToMask no_coco"
    by (rule ext) (simp add: table_coco_sel no_coco_def)
  from paint_anns_cong [OF this] show ?thesis
    by (simp add: label_mask_def split: sum.splits)
qed

lemma decodes_to_table_coco:
  "decodes_to (table_coco ds imgs) sh a = decodes_to no_coco sh a"
  by (simp add: decodes_to_def table_coco_sel no_coco_def)


lemma image_id_fixtures:
  "image_id ann_3_left = 7" "image_id ann_5_right = 7" "image_id ann_malformed = 7"
  by (simp_all add: ann_3_left_def ann_5_right_def ann_malformed_def)

lemma fits_fixtures:
  "fits_c_long (category_id ann_3_left)" "fits_c_long (category_id ann_5_right)"
  by (simp_all add: category_fixtures fits_c_long_def)

lemma group_fixtures:
  "group_by_image [ann_3_left, ann_5_right] = [(7, [ann_3_left, ann_5_right])]"
  "group_by_image [ann_3_left, ann_malformed, ann_5_right] =
     [(7, [ann_3_left, ann_malformed, ann_5_right])]"
  "group_by_image [ann_3_left] = [(7, [ann_3_left])]"
  by (simp_all add: group_by_image_def image_id_fixtures)





lemma run_one_split:
  "coco_json_to_segmentation (loads coco) id [out] [annFile] [image_path] w =
     convert_split (loads coco) id [annFile] (out, annFile, image_path) w"
  by (simp add: coco_json_to_segmentation_def split: sum.splits)

lemma convert_split_instances:
  "dataset coco ''instances'' = Some anns \<Longrightarrow>
   convert_split (loads coco) id paths (out, annFile, image_path) w =
     images_loop coco out (group_by_image anns) (map fst (group_by_image anns)) w"
  by (simp add: convert_split_def loads_def Let_def)

text \<open>
  C3: an annotation source without the key \<^verbatim>\<open>instances\<close> writes no mask file, but both
  skip branches raise \<^verbatim>\<open>TypeError\<close> while building their message, because they
  concatenate a string with the list \<^verbatim>\<open>annotation_paths\<close>: nothing is printed and the
  exception ends the run. Evaluated on a source that holds captions only and on one
  that holds neither instances nor captions.
\<close>

theorem skip_message_raises:
  "coco_json_to_segmentation (loads coco_captions) id
       [''out''] [''captions.json''] [''imgs''] empty_world = Inl (TypeError, empty_world) \<and>
   coco_json_to_segmentation (loads coco_keypoints) id
       [''out''] [''keypoints.json''] [''imgs''] empty_world = Inl (TypeError, empty_world)"
  by (simp add: run_one_split convert_split_def loads_def coco_captions_def coco_keypoints_def
      table_coco_sel)

theorem malformed_geometry_aborts_counterexample:
  "coco_json_to_segmentation (loads coco_malformed) id
       [''out''] [''instances.json''] [''imgs''] empty_world = Inl (ValueError, empty_world)"
proof -
  have "annToMask no_coco ann_malformed = Inl ValueError"
    by (simp add: no_coco_def table_coco_sel ann_malformed_def)
  moreover have "list_all (decodes_to no_coco (img_shape img_1x2)) [ann_3_left]"
    by (simp add: decodes_to_fixtures)
  ultimately have "label_mask no_coco img_1x2 ([ann_3_left] @ ann_malformed # [ann_5_right]) =
      Inl (if list_all (\<lambda>b. fits_c_long (category_id b)) [ann_3_left] then ValueError
           else OverflowError)"
    using dims_img_1x2 by (intro label_mask_fails)
  then have "process_image coco_malformed ''out'' [ann_3_left, ann_malformed, ann_5_right]
      empty_world = Inl (ValueError, empty_world)"
    by (simp add: process_image_def coco_malformed_def table_coco_sel image_id_fixtures
        label_mask_table_coco fits_fixtures)
  moreover have "dataset coco_malformed ''instances'' =
      Some [ann_3_left, ann_malformed, ann_5_right]"
    by (simp add: coco_malformed_def table_coco_sel)
  ultimately show ?thesis
    by (simp add: run_one_split convert_split_instances group_fixtures dd_get_def)
qed

theorem missing_metadata_aborts_counterexample:
  "coco_json_to_segmentation (loads coco_no_metadata) id
       [''out''] [''instances.json''] [''imgs''] empty_world = Inl (KeyError, empty_world)"
proof -
  have "process_image coco_no_metadata ''out'' [ann_3_left] empty_world =
      Inl (KeyError, empty_world)"
    by (simp add: process_image_def coco_no_metadata_def table_coco_sel)
  moreover have "dataset coco_no_metadata ''instances'' = Some [ann_3_left]"
    by (simp add: coco_no_metadata_def table_coco_sel)
  ultimately show ?thesis
    by (simp add: run_one_split convert_split_instances group_fixtures dd_get_def)
qed


theorem malformed_geometry_aborts_witness:
  "[ann_3_left, ann_malformed, ann_5_right] = [ann_3_left] @ ann_malformed # [ann_5_right] \<and>
   loadImgs coco_malformed (image_id (hd [ann_3_left, ann_malformed, ann_5_right])) =
     Inr (img_1x2 # []) \<and>
   0 \<le> height img_1x2 \<and> 0 \<le> width img_1x2 \<and>
   list_all (decodes_to coco_malformed (img_shape img_1x2)) [ann_3_left] \<and>
   annToMask coco_malformed ann_malformed = Inl ValueError \<and>
   dd_get [(7, [ann_3_left, ann_malformed, ann_5_right])] 7 =
     [ann_3_left, ann_malformed, ann_5_right] \<and>
   process_image coco_malformed ''out'' [ann_3_left, ann_malformed, ann_5_right] empty_world =
     Inl (ValueError, empty_world) \<and>
   images_loop coco_malformed ''out'' [(7, [ann_3_left, ann_malformed, ann_5_right])] [7]
     empty_world = Inl (ValueError, empty_world)"
proof -
  have h: "[ann_3_left, ann_malformed, ann_5_right] = [ann_3_left] @ ann_malformed # [ann_5_right]"
    "loadImgs coco_malformed (image_id (hd [ann_3_left, ann_malformed, ann_5_right])) =
       Inr (img_1x2 # [])"
    "0 \<le> height img_1x2" "0 \<le> width img_1x2"
    "list_all (decodes_to coco_malformed (img_shape img_1x2)) [ann_3_left]"
    "annToMask coco_malformed ann_malformed = Inl ValueError"
    "dd_get [(7, [ann_3_left, ann_malformed, ann_5_right])] 7 =
       [ann_3_left, ann_malformed, ann_5_right]"
    by (simp_all add: coco_malformed_def table_coco_sel image_id_fixtures dims_img_1x2
        decodes_to_table_coco decodes_to_fixtures ann_malformed_def dd_get_def)
  show ?thesis
    using h malformed_geometry_aborts [OF h, of "''out''" empty_world "[]"]
    by (simp add: fits_fixtures)
qed

theorem missing_metadata_aborts_witness:
  "[ann_3_left] = ann_3_left # [] \<and>
   loadImgs coco_no_metadata (image_id ann_3_left) = Inl KeyError \<and>
   dd_get [(7, [ann_3_left])] 7 = [ann_3_left] \<and>
   process_image coco_no_metadata ''out'' [ann_3_left] empty_world =
     Inl (KeyError, empty_world) \<and>
   images_loop coco_no_metadata ''out'' [(7, [ann_3_left])] [7] empty_world =
     Inl (KeyError, empty_world)"
proof -
  have h1: "[ann_3_left] = ann_3_left # []" by simp
  have l: "loadImgs coco_no_metadata (image_id ann_3_left) = Inl KeyError"
    by (simp add: coco_no_metadata_def table_coco_sel)
  then have h2: "loadImgs coco_no_metadata (image_id ann_3_left) = Inl KeyError \<or>
      loadImgs coco_no_metadata (image_id ann_3_left) = Inr [] \<and> KeyError = IndexError"
    by simp
  have h3: "dd_get [(7, [ann_3_left])] 7 = [ann_3_left]"
    by (simp add: dd_get_def)
  show ?thesis
    using l h3 missing_metadata_aborts [OF h1 h2 h3, of "''out''" empty_world "[]"] by simp
qed



section \<open>The record of an image/mask pair\<close>

lemma length_enc_nat: "length (enc_nat n v) = n"
  by (induction n arbitrary: v) simp_all

lemma dec_enc_nat: "v < 256 ^ n \<Longrightarrow> dec_nat (enc_nat n v) = v"
proof (induction n arbitrary: v)
  case 0
  then show ?case by simp
next
  case (Suc n)
  then have "v div 256 < 256 ^ n"
    by (simp add: less_mult_imp_div_less mult.commute)
  with Suc.IH have "dec_nat (enc_nat n (v div 256)) = v div 256" by simp
  moreover have "unat (of_nat (v mod 256) :: uint8) = v mod 256"
    by (simp add: unat_of_nat)
  ultimately show ?case by simp
qed

lemma unat_fits: "unat (x :: ('w::len) word) < 256 ^ int_width TYPE('w)"
proof -
  have "unat x < 2 ^ LENGTH('w)" by (rule unsigned_less)
  also have "(2::nat) ^ LENGTH('w) \<le> 2 ^ (8 * int_width TYPE('w))"
    by (rule power_increasing) (simp_all add: int_width_def)
  also have "(2::nat) ^ (8 * int_width TYPE('w)) = 256 ^ int_width TYPE('w)"
    by (simp add: power_mult)
  finally show ?thesis .
qed

lemma decode_encode_int: "decode_int (encode_int x) = (x :: ('w::len) word)"
  by (simp add: decode_int_def encode_int_def dec_enc_nat unat_fits)

lemma length_encode_int: "length (encode_int (x :: ('w::len) word)) = int_width TYPE('w)"
  by (simp add: encode_int_def length_enc_nat)

text \<open>
  C6: under the record format of the specification, every image/mask pair of raster
  arrays that share height and width is encoded, and decoding the record gives back the
  pair itself: the height, the width, both channel counts and the raw pixel bytes of
  image and mask.
\<close>

theorem record_round_trip:
  fixes img msk :: "('w::len) word raster"
  assumes "wf_raster img" and "wf_raster msk"
    and "r_height img = r_height msk" and "r_width img = r_width msk"
  shows "\<exists>bs. encode_record img msk = Inr bs \<and> decode_record bs = Inr (img, msk)"
proof -
  define n where "n = int_width TYPE('w)"
  define bs where "bs = encode_int (r_height img) @ encode_int (r_width img) @
                encode_int (r_depth img) @ encode_int (r_depth msk) @
                r_bytes img @ r_bytes msk"
  have e: "encode_record img msk = Inr bs"
    using assms(3,4) by (simp add: encode_record_def bs_def)
  have l: "length (encode_int (x :: 'w word)) = n" for x
    by (simp add: length_encode_int n_def)
  have t0: "take n bs = encode_int (r_height img)"
    by (simp add: bs_def l)
  have t1: "take n (drop n bs) = encode_int (r_width img)"
    by (simp add: bs_def l)
  have t2: "take n (drop (2 * n) bs) = encode_int (r_depth img)"
    by (simp add: bs_def l)
  have t3: "take n (drop (3 * n) bs) = encode_int (r_depth msk)"
    by (simp add: bs_def l)
  have t4: "drop (4 * n) bs = r_bytes img @ r_bytes msk"
    by (simp add: bs_def l)
  have len: "4 * n \<le> length bs"
    by (simp add: bs_def l)
  have li: "length (r_bytes img) = unat (r_height img) * unat (r_width img) * unat (r_depth img)"
    using assms(1) by (simp add: wf_raster_def)
  have lm: "length (r_bytes msk) = unat (r_height img) * unat (r_width img) * unat (r_depth msk)"
    using assms(2,3,4) by (simp add: wf_raster_def)
  have "decode_record bs = Inr (img, msk)"
    unfolding decode_record_def Let_def n_def [symmetric] t0 t1 t2 t3 t4 decode_encode_int
    using len li lm assms(3,4) by simp
  with e show ?thesis by blast
qed

theorem record_round_trip_witness:
  "wf_raster raster_rgb \<and> wf_raster raster_mask \<and>
   r_height raster_rgb = r_height raster_mask \<and> r_width raster_rgb = r_width raster_mask \<and>
   (\<exists>bs. encode_record raster_rgb raster_mask = Inr bs \<and>
      decode_record bs = Inr (raster_rgb, raster_mask))"
proof -
  have h: "wf_raster raster_rgb" "wf_raster raster_mask"
    "r_height raster_rgb = r_height raster_mask" "r_width raster_rgb = r_width raster_mask"
    by (simp_all add: wf_raster_def raster_rgb_def raster_mask_def)
  show ?thesis
    using h record_round_trip [OF h] by simp
qed

section \<open>The pairs handed to the record writer\<close>













end
